theory Spec2Isabelle
  imports Main "HOL-Library.AList" "HOL-Library.Sublist" "HOL-Library.List_Lexorder"
begin

section \<open>Text: Python strings and the library calls of \<open>_normalize_text\<close>\<close>

text \<open>
  A Python \<open>str\<close> is a sequence of Unicode code points, so a string is a list of
  code points (natural numbers); \<open>ustr_of\<close> reads an ASCII literal.
\<close>

type_synonym codepoint = nat
type_synonym ustr = "codepoint list"

definition ustr_of :: "string \<Rightarrow> ustr" where
  "ustr_of s = map of_char s"

text \<open>
  \<open>_normalize_text\<close> calls into Python's runtime: \<open>unicodedata.normalize("NFKD", _)\<close>,
  \<open>unicodedata.combining\<close>, \<open>str.lower\<close>, \<open>str.strip\<close> and the regular expression
  classes \<open>\s\<close> and \<open>\w\<close>. Their tables are the Unicode database, which is no part of
  the repository, so the model takes them as a parameter. \<open>str.strip\<close>, \<open>str.isspace\<close>
  and \<open>\s\<close> use the same whitespace predicate in CPython. \<open>set_iter\<close> is the order in
  which the runtime iterates the \<open>set\<close> built from the given elements (\<open>add_anime\<close>
  loops over a set of titles).
\<close>

record pylib =
  nfkd :: "ustr \<Rightarrow> ustr"
  combining :: "codepoint \<Rightarrow> nat"
  lower :: "ustr \<Rightarrow> ustr"
  isspace :: "codepoint \<Rightarrow> bool"
  isword :: "codepoint \<Rightarrow> bool"
  set_iter :: "ustr list \<Rightarrow> ustr list"

text \<open>\<open>s.strip()\<close>: whitespace removed at both ends.\<close>

definition strip :: "pylib \<Rightarrow> ustr \<Rightarrow> ustr" where
  "strip U s = rev (dropWhile (isspace U) (rev (dropWhile (isspace U) s)))"

text \<open>\<open>re.sub(r"[^\w\s-]", "", s)\<close>: only word characters, whitespace and the hyphen
  (code point 45) stay.\<close>

definition remove_punct :: "pylib \<Rightarrow> ustr \<Rightarrow> ustr" where
  "remove_punct U s = filter (\<lambda>c. isword U c \<or> isspace U c \<or> c = 45) s"

text \<open>\<open>re.sub(r"\s+", " ", s)\<close>: every maximal run of whitespace becomes one space
  (code point 32).\<close>

function collapse_ws :: "pylib \<Rightarrow> ustr \<Rightarrow> ustr" where
  "collapse_ws U [] = []"
| "collapse_ws U (c # cs) =
     (if isspace U c then 32 # collapse_ws U (dropWhile (isspace U) cs)
      else c # collapse_ws U cs)"
  by pat_completeness auto
termination
  by (relation "measure (\<lambda>(U, s). length s)")
     (auto simp: length_dropWhile_le less_Suc_eq_le)

text \<open>The body of \<open>_normalize_text\<close>, statement by statement.\<close>

definition normalize_text :: "pylib \<Rightarrow> ustr \<Rightarrow> ustr" where
  "normalize_text U text =
     (let normalized = nfkd U text;
          normalized = filter (\<lambda>c. combining U c = 0) normalized;
          normalized = strip U (lower U normalized);
          normalized = remove_punct U normalized;
          normalized = collapse_ws U normalized
      in normalized)"

text \<open>
  The pipeline in the order the specification lists its steps: decompose, discard
  combining marks, lowercase, discard what is not a word character, whitespace or
  hyphen, collapse whitespace runs, trim. (The specification says canonical
  decomposition; the call in the source asks for NFKD, which is what \<open>nfkd\<close> stands for.)
\<close>

definition spec_normalize_text :: "pylib \<Rightarrow> ustr \<Rightarrow> ustr" where
  "spec_normalize_text U text =
     strip U (collapse_ws U (remove_punct U (lower U
       (filter (\<lambda>c. combining U c = 0) (nfkd U text)))))"

text \<open>
  One instance of the parameter, used to evaluate the model on concrete inputs. It is
  CPython's behaviour on code points below 128 (Basic Latin): NFKD leaves them
  unchanged, none is a combining mark, \<open>lower\<close> maps \<open>A..Z\<close> to \<open>a..z\<close>, whitespace
  is 9..13 and 28..32, word characters are digits, letters and the underscore. Above 127
  it leaves every code point as it is and classifies none; the inputs evaluated below
  are all ASCII. A set is iterated in the order of first occurrence.
\<close>

definition basic_latin :: pylib where
  "basic_latin =
     \<lparr> nfkd = (\<lambda>s. s),
       combining = (\<lambda>c. 0),
       lower = map (\<lambda>c. if 65 \<le> c \<and> c \<le> 90 then c + 32 else c),
       isspace = (\<lambda>c. (9 \<le> c \<and> c \<le> 13) \<or> (28 \<le> c \<and> c \<le> 32)),
       isword = (\<lambda>c. (48 \<le> c \<and> c \<le> 57) \<or> (65 \<le> c \<and> c \<le> 90) \<or> c = 95
                      \<or> (97 \<le> c \<and> c \<le> 122)),
       set_iter = remdups \<rparr>"

section \<open>Entities (\<open>entites/core.py\<close>)\<close>

text \<open>
  The dataclasses, with the fields the index reads. \<open>Anime\<close> has further fields
  (image, synopsis, score, episodes, ...) that \<open>utils/trie.py\<close> never touches.
  \<open>id\<close> and \<open>name\<close> are prefixed by the class, since the three classes share them.
\<close>

record genre =
  genre_id :: int
  genre_name :: ustr

record anime_studio =
  studio_id :: int
  studio_name :: ustr

record anime =
  anime_id :: int
  title :: ustr
  title_english :: "ustr option"
  title_japanese :: "ustr option"
  genres :: "genre list"
  studios :: "anime_studio list"

text \<open>Python's \<open>x or y\<close> for an optional string \<open>x\<close>: \<open>None\<close> and \<open>""\<close> are falsy.\<close>

definition or_else :: "ustr option \<Rightarrow> ustr \<Rightarrow> ustr" where
  "or_else x y = (case x of None \<Rightarrow> y | Some s \<Rightarrow> if s = [] then y else s)"

definition display_title :: "anime \<Rightarrow> ustr" where
  "display_title a = or_else (title_english a) (or_else (title_japanese a) (title a))"

section \<open>The trie (\<open>utils/trie.py\<close>)\<close>

text \<open>
  \<open>TrieNode\<close>: \<open>children\<close> is a dict, kept in insertion order as an association
  list (\<open>map_of\<close> reads it, \<open>AList.update\<close> writes it in place or appends);
  \<open>anime_ids\<close> is a set of integers.
\<close>

datatype trie_node =
  TrieNode (children: "(codepoint \<times> trie_node) list") (is_end_of_word: bool)
    (anime_ids: "int set")

definition new_node :: trie_node where
  "new_node = TrieNode [] False {}"

text \<open>
  The loop of \<open>_add_to_trie\<close> and the two statements after it, from the node the loop
  stands on: each character creates the child if it is missing, steps into it and adds
  the identifier there; after the last character the node is flagged and gets the
  identifier (again).
\<close>

fun add_path :: "ustr \<Rightarrow> int \<Rightarrow> trie_node \<Rightarrow> trie_node" where
  "add_path [] i node =
     TrieNode (children node) True (insert i (anime_ids node))"
| "add_path (c # cs) i node =
     (let child = (case map_of (children node) c of None \<Rightarrow> new_node | Some n \<Rightarrow> n);
          child = TrieNode (children child) (is_end_of_word child)
                    (insert i (anime_ids child))
      in TrieNode (AList.update c (add_path cs i child) (children node))
           (is_end_of_word node) (anime_ids node))"

definition add_to_trie :: "pylib \<Rightarrow> trie_node \<Rightarrow> ustr \<Rightarrow> int \<Rightarrow> trie_node" where
  "add_to_trie U trie_root text i = add_path (normalize_text U text) i trie_root"

text \<open>
  The walk shared by \<open>_search_in_trie\<close> and \<open>get_suggestions\<close>: follow existing
  children only, stop at the first missing character.
\<close>

fun find_node :: "ustr \<Rightarrow> trie_node \<Rightarrow> trie_node option" where
  "find_node [] node = Some node"
| "find_node (c # cs) node =
     (case map_of (children node) c of None \<Rightarrow> None | Some n \<Rightarrow> find_node cs n)"

definition search_in_trie :: "pylib \<Rightarrow> trie_node \<Rightarrow> ustr \<Rightarrow> int set" where
  "search_in_trie U trie_root pre =
     (case find_node (normalize_text U pre) trie_root of
        None \<Rightarrow> {}
      | Some node \<Rightarrow> anime_ids node)"

section \<open>The index (\<open>AnimeTrie\<close>)\<close>

text \<open>
  The four attributes of \<open>AnimeTrie\<close>. \<open>_anime_by_id\<close> is a dict in insertion order
  (\<open>get_all_anime\<close> sorts its values with a stable sort, so the order shows).
\<close>

record anime_trie =
  root :: trie_node
  anime_by_id :: "(int \<times> anime) list"
  genre_trie :: trie_node
  studio_trie :: trie_node

definition init :: anime_trie where
  "init = \<lparr> root = new_node, anime_by_id = [], genre_trie = new_node,
            studio_trie = new_node \<rparr>"

definition add_anime :: "pylib \<Rightarrow> anime \<Rightarrow> anime_trie \<Rightarrow> anime_trie" where
  "add_anime U a st =
     (if map_of (anime_by_id st) (anime_id a) \<noteq> None then st
      else
        let titles = set_iter U [title a, display_title a,
                       or_else (title_english a) [], or_else (title_japanese a) []]
        in \<lparr> root = fold (\<lambda>t r. if strip U t \<noteq> [] then add_to_trie U r t (anime_id a)
                                  else r) titles (root st),
             anime_by_id = AList.update (anime_id a) a (anime_by_id st),
             genre_trie = fold (\<lambda>g r. add_to_trie U r (genre_name g) (anime_id a))
                            (genres a) (genre_trie st),
             studio_trie = fold (\<lambda>s r. add_to_trie U r (studio_name s) (anime_id a))
                             (studios a) (studio_trie st) \<rparr>)"

text \<open>\<open>remove_anime\<close> returns its boolean and the state it leaves.\<close>

definition remove_anime :: "int \<Rightarrow> anime_trie \<Rightarrow> bool \<times> anime_trie" where
  "remove_anime i st =
     (if map_of (anime_by_id st) i = None then (False, st)
      else (True, st\<lparr> anime_by_id := AList.delete i (anime_by_id st) \<rparr>))"

definition clear :: "anime_trie \<Rightarrow> anime_trie" where
  "clear st = \<lparr> root = new_node, anime_by_id = [], genre_trie = new_node,
                studio_trie = new_node \<rparr>"

definition total_anime :: "anime_trie \<Rightarrow> nat" where
  "total_anime st = length (anime_by_id st)"

definition get_all_anime :: "pylib \<Rightarrow> anime_trie \<Rightarrow> anime list" where
  "get_all_anime U st =
     sort_key (\<lambda>a. lower U (display_title a)) (map snd (anime_by_id st))"

text \<open>
  \<open>[self._anime_by_id[anime_id] for anime_id in ...]\<close>: the subscript raises
  \<open>KeyError\<close> at the first identifier that the dict does not hold.
\<close>

datatype error = KeyError int

fun lookup_each :: "(int \<times> anime) list \<Rightarrow> int list \<Rightarrow> error + anime list" where
  "lookup_each d [] = Inr []"
| "lookup_each d (i # is) =
     (case map_of d i of
        None \<Rightarrow> Inl (KeyError i)
      | Some a \<Rightarrow> (case lookup_each d is of Inl e \<Rightarrow> Inl e | Inr as \<Rightarrow> Inr (a # as)))"

text \<open>
  \<open>if limit: results = results[:limit]\<close>. \<open>None\<close> and \<open>0\<close> are falsy; a negative
  bound of a slice counts from the end.
\<close>

definition apply_limit :: "int option \<Rightarrow> 'a list \<Rightarrow> 'a list" where
  "apply_limit limit results =
     (case limit of
        None \<Rightarrow> results
      | Some n \<Rightarrow>
          if n = 0 then results
          else if 0 < n then take (nat n) results
          else take (length results - nat (- n)) results)"

text \<open>
  The searches. \<open>sorted(anime_ids)\<close> is \<open>sorted_list_of_set\<close>; the sets of every
  index that the calls build are finite (\<open>run_trie_finite\<close> below). The list
  comprehension runs before the limit is looked at. \<open>get_suggestions\<close> only reads
  the index and returns display titles; it is not needed for the statements below.
\<close>

definition search_by_title ::
  "pylib \<Rightarrow> anime_trie \<Rightarrow> ustr \<Rightarrow> int option \<Rightarrow> error + anime list" where
  "search_by_title U st pre limit =
     (case lookup_each (anime_by_id st)
             (sorted_list_of_set (search_in_trie U (root st) pre)) of
        Inl e \<Rightarrow> Inl e
      | Inr results \<Rightarrow> Inr (apply_limit limit results))"

definition search_by_genre :: "pylib \<Rightarrow> anime_trie \<Rightarrow> ustr \<Rightarrow> error + anime list" where
  "search_by_genre U st genre_prefix =
     lookup_each (anime_by_id st)
       (sorted_list_of_set (search_in_trie U (genre_trie st) genre_prefix))"

definition search_by_studio :: "pylib \<Rightarrow> anime_trie \<Rightarrow> ustr \<Rightarrow> error + anime list" where
  "search_by_studio U st studio_prefix =
     lookup_each (anime_by_id st)
       (sorted_list_of_set (search_in_trie U (studio_trie st) studio_prefix))"

text \<open>\<open>if title_prefix:\<close> and its siblings: \<open>None\<close> and \<open>""\<close> are falsy.\<close>

definition truthy :: "ustr option \<Rightarrow> bool" where
  "truthy x = (case x of None \<Rightarrow> False | Some s \<Rightarrow> s \<noteq> [])"

definition narrow :: "int set option \<Rightarrow> int set \<Rightarrow> int set option" where
  "narrow result_ids ids =
     Some (case result_ids of None \<Rightarrow> ids | Some r \<Rightarrow> r \<inter> ids)"

definition advanced_search ::
  "pylib \<Rightarrow> anime_trie \<Rightarrow> ustr option \<Rightarrow> ustr option \<Rightarrow> ustr option \<Rightarrow> int option
     \<Rightarrow> error + anime list" where
  "advanced_search U st title_prefix genre_prefix studio_prefix limit =
     (let result_ids = None;
          result_ids = (if truthy title_prefix
                        then Some (search_in_trie U (root st) (or_else title_prefix []))
                        else result_ids);
          result_ids = (if truthy genre_prefix
                        then narrow result_ids
                               (search_in_trie U (genre_trie st) (or_else genre_prefix []))
                        else result_ids);
          result_ids = (if truthy studio_prefix
                        then narrow result_ids
                               (search_in_trie U (studio_trie st) (or_else studio_prefix []))
                        else result_ids);
          result_ids = (case result_ids of
                          None \<Rightarrow> fst ` set (anime_by_id st)
                        | Some r \<Rightarrow> r)
      in case lookup_each (anime_by_id st) (sorted_list_of_set result_ids) of
           Inl e \<Rightarrow> Inl e
         | Inr results \<Rightarrow> Inr (apply_limit limit results))"

text \<open>Sequences of calls on a fresh index.\<close>

datatype op = Add anime | Remove int | Clear

fun apply_op :: "pylib \<Rightarrow> op \<Rightarrow> anime_trie \<Rightarrow> anime_trie" where
  "apply_op U (Add a) st = add_anime U a st"
| "apply_op U (Remove i) st = snd (remove_anime i st)"
| "apply_op U Clear st = clear st"

definition run :: "pylib \<Rightarrow> op list \<Rightarrow> anime_trie" where
  "run U ops = fold (apply_op U) ops init"

fun is_remove :: "op \<Rightarrow> bool" where
  "is_remove (Remove i) = True"
| "is_remove _ = False"

section \<open>Notions used by the statements\<close>

text \<open>
  The identifier set found at the end of a path (empty when the path leaves the trie):
  \<open>_search_in_trie\<close> without the normalization of its argument.
\<close>

definition ids_at :: "ustr \<Rightarrow> trie_node \<Rightarrow> int set" where
  "ids_at p t = (case find_node p t of None \<Rightarrow> {} | Some n \<Rightarrow> anime_ids n)"

text \<open>
  Which nodes \<open>add_path k\<close> adds the identifier to: the nodes below the root on the
  path of \<open>k\<close>, and the root itself only for the empty key.
\<close>

definition hits :: "ustr \<Rightarrow> ustr \<Rightarrow> bool" where
  "hits p k = (if p = [] then k = [] else prefix p k)"

definition trie_mono :: "trie_node \<Rightarrow> bool" where
  "trie_mono t = (\<forall>p q. p \<noteq> [] \<and> prefix p q \<longrightarrow> ids_at q t \<subseteq> ids_at p t)"

definition trie_finite :: "trie_node \<Rightarrow> bool" where
  "trie_finite t = (\<forall>p. finite (ids_at p t))"

text \<open>Every record is stored under its own identifier.\<close>

definition keys_ok :: "(int \<times> anime) list \<Rightarrow> bool" where
  "keys_ok d = (\<forall>i a. map_of d i = Some a \<longrightarrow> anime_id a = i)"

text \<open>
  The keys \<open>add_anime\<close> indexes for a record, per field: the normalized titles that
  pass the \<open>title.strip()\<close> test, the normalized genre names, the normalized studio
  names.
\<close>

definition title_keys :: "pylib \<Rightarrow> anime \<Rightarrow> ustr set" where
  "title_keys U a =
     normalize_text U `
       {t \<in> {title a, display_title a, or_else (title_english a) [],
              or_else (title_japanese a) []}. strip U t \<noteq> []}"

definition genre_keys :: "pylib \<Rightarrow> anime \<Rightarrow> ustr set" where
  "genre_keys U a = normalize_text U ` genre_name ` set (genres a)"

definition studio_keys :: "pylib \<Rightarrow> anime \<Rightarrow> ustr set" where
  "studio_keys U a = normalize_text U ` studio_name ` set (studios a)"

text \<open>The identifiers of the records in the table that have a key starting with \<open>p\<close>.\<close>

definition indexed_ids ::
  "(anime \<Rightarrow> ustr set) \<Rightarrow> (int \<times> anime) list \<Rightarrow> ustr \<Rightarrow> int set" where
  "indexed_ids keys d p =
     {i. \<exists>a. map_of d i = Some a \<and> (\<exists>k \<in> keys a. prefix p k)}"

text \<open>
  Below the root, every path of every trie leads to exactly the identifiers of the
  records in the table that have a key of that field starting with the path.
\<close>

definition nodes_exact :: "pylib \<Rightarrow> anime_trie \<Rightarrow> bool" where
  "nodes_exact U st =
     (\<forall>p. p \<noteq> [] \<longrightarrow>
        ids_at p (root st) = indexed_ids (title_keys U) (anime_by_id st) p \<and>
        ids_at p (genre_trie st) = indexed_ids (genre_keys U) (anime_by_id st) p \<and>
        ids_at p (studio_trie st) = indexed_ids (studio_keys U) (anime_by_id st) p)"

text \<open>Records for the concrete runs below; the first two are the specification's scenario.\<close>

definition attack_on_titan :: anime where
  "attack_on_titan =
     \<lparr> anime_id = 1, title = ustr_of ''Attack on Titan'', title_english = None,
       title_japanese = None,
       genres = [\<lparr> genre_id = 1, genre_name = ustr_of ''Action'' \<rparr>],
       studios = [\<lparr> studio_id = 1, studio_name = ustr_of ''Wit Studio'' \<rparr>] \<rparr>"

definition attack_on_tokyo :: anime where
  "attack_on_tokyo =
     \<lparr> anime_id = 2, title = ustr_of ''Attack on Tokyo'', title_english = None,
       title_japanese = None,
       genres = [\<lparr> genre_id = 2, genre_name = ustr_of ''Drama'' \<rparr>],
       studios = [\<lparr> studio_id = 2, studio_name = ustr_of ''Toei'' \<rparr>] \<rparr>"

definition renamed_titan :: anime where
  "renamed_titan =
     \<lparr> anime_id = 1, title = ustr_of ''Shingeki'', title_english = None,
       title_japanese = None, genres = [], studios = [] \<rparr>"

definition punctuation_only :: anime where
  "punctuation_only =
     \<lparr> anime_id = 3, title = ustr_of ''!!!'', title_english = None,
       title_japanese = None, genres = [], studios = [] \<rparr>"

definition short_a :: anime where
  "short_a =
     \<lparr> anime_id = 1, title = ustr_of ''a'', title_english = None,
       title_japanese = None, genres = [], studios = [] \<rparr>"

section \<open>Normalization\<close>

text \<open>
  C6 (normalization idempotence). The source strips before it deletes punctuation, so
  deleting a leading punctuation mark can uncover a space that a second pass strips:
  \<open>"! a"\<close> normalizes to \<open>" a"\<close>, and that to \<open>"a"\<close>. The function is not idempotent
  at this input.
\<close>

theorem normalize_text_not_idempotent:
  "normalize_text basic_latin (ustr_of ''! a'') = ustr_of '' a'' \<and>
   normalize_text basic_latin (normalize_text basic_latin (ustr_of ''! a'')) = ustr_of ''a''"
  by code_simp

text \<open>
  C7 (the pipeline in the specification's order, trimming last). On \<open>"a !"\<close> the
  specification's pipeline gives \<open>"a"\<close>; the source, which trims before it deletes
  punctuation, gives \<open>"a "\<close>, with trailing whitespace.
\<close>

theorem normalize_text_keeps_trailing_space:
  "spec_normalize_text basic_latin (ustr_of ''a !'') = ustr_of ''a'' \<and>
   normalize_text basic_latin (ustr_of ''a !'') = ustr_of ''a ''"
  by code_simp

section \<open>Removal\<close>

text \<open>
  C1 (removal completeness). \<open>remove_anime\<close> deletes the record from the table and
  leaves the tries alone: after adding record 1 and removing it (the call returns
  \<open>True\<close>), the title trie still answers \<open>{1}\<close> for a prefix of its title, and
  \<open>search_by_title\<close> raises \<open>KeyError\<close> on that identifier instead of returning a
  result without it.
\<close>

theorem remove_anime_leaves_trie_ids:
  "fst (remove_anime 1 (run basic_latin [Add attack_on_titan])) = True \<and>
   search_in_trie basic_latin (root (run basic_latin [Add attack_on_titan, Remove 1]))
     (ustr_of ''attack'') = {1} \<and>
   search_by_title basic_latin (run basic_latin [Add attack_on_titan, Remove 1])
     (ustr_of ''attack'') None = Inl (KeyError 1)"
  by code_simp

text \<open>
  C2 (stale-reference safety). In the specification's scenario, after \<open>remove(1)\<close>,
  \<open>advanced_search\<close> with the title prefix \<open>"attack"\<close> and \<open>search_by_genre("action")\<close>
  both subscript the table with the removed identifier and raise \<open>KeyError\<close>: nothing
  filters the identifiers against the table first.
\<close>

theorem search_after_remove_raises:
  "advanced_search basic_latin
     (run basic_latin [Add attack_on_titan, Add attack_on_tokyo, Remove 1])
     (Some (ustr_of ''attack'')) None None None = Inl (KeyError 1) \<and>
   search_by_genre basic_latin
     (run basic_latin [Add attack_on_titan, Add attack_on_tokyo, Remove 1])
     (ustr_of ''action'') = Inl (KeyError 1)"
  by code_simp

section \<open>Empty keys\<close>

text \<open>
  C5 (empty keys are never inserted). The title \<open>"!!!"\<close> passes the \<open>title.strip()\<close>
  test and normalizes to the empty key; \<open>_add_to_trie\<close> then flags the root of the
  title trie and adds the identifier to it. The record is registered (it counts in
  \<open>total_anime\<close>), the title trie has changed, and the record is the result of the
  title search for the empty prefix.
\<close>

theorem empty_key_reaches_root:
  "normalize_text basic_latin (title punctuation_only) = [] \<and>
   total_anime (run basic_latin [Add punctuation_only]) = 1 \<and>
   anime_ids (root (run basic_latin [Add punctuation_only])) = {3} \<and>
   is_end_of_word (root (run basic_latin [Add punctuation_only])) = True \<and>
   search_by_title basic_latin (run basic_latin [Add punctuation_only]) [] None
     = Inr [punctuation_only]"
  by code_simp

section \<open>Adding a record twice\<close>

lemma add_anime_present:
  "map_of (anime_by_id st) (anime_id a) \<noteq> None \<Longrightarrow> add_anime U a st = st"
  by (simp add: add_anime_def)

lemma anime_by_id_add:
  "map_of (anime_by_id st) (anime_id a) = None \<Longrightarrow>
     anime_by_id (add_anime U a st) = AList.update (anime_id a) a (anime_by_id st)"
  by (simp add: add_anime_def Let_def)

lemma add_anime_registers:
  "map_of (anime_by_id (add_anime U a st)) (anime_id a) \<noteq> None"
proof (cases "map_of (anime_by_id st) (anime_id a) = None")
  case True
  then show ?thesis by (simp add: anime_by_id_add update_conv')
next
  case False
  then show ?thesis by (simp add: add_anime_present)
qed

text \<open>
  C9 (re-add idempotence). \<open>add_anime\<close> with an identifier the table already holds
  returns the index as it is; so a second add under the same identifier, whatever
  titles, genres and studios the second record carries, leaves the index, and with it
  \<open>total_anime\<close> and the answer of every query, as the first add left them.
\<close>

theorem add_anime_again_is_noop:
  "(map_of (anime_by_id st) (anime_id a) \<noteq> None \<longrightarrow> add_anime U a st = st) \<and>
   (anime_id b = anime_id a \<longrightarrow>
      add_anime U b (add_anime U a st) = add_anime U a st \<and>
      total_anime (add_anime U b (add_anime U a st)) = total_anime (add_anime U a st))"
proof (intro conjI impI)
  assume "map_of (anime_by_id st) (anime_id a) \<noteq> None"
  then show "add_anime U a st = st" by (rule add_anime_present)
next
  assume same: "anime_id b = anime_id a"
  have "map_of (anime_by_id (add_anime U a st)) (anime_id b) \<noteq> None"
    unfolding same by (rule add_anime_registers)
  then show eq: "add_anime U b (add_anime U a st) = add_anime U a st"
    by (rule add_anime_present)
  show "total_anime (add_anime U b (add_anime U a st)) = total_anime (add_anime U a st)"
    by (simp only: eq)
qed

theorem add_anime_again_is_noop_witness:
  "anime_id renamed_titan = anime_id attack_on_titan \<and>
   title renamed_titan \<noteq> title attack_on_titan \<and>
   add_anime basic_latin renamed_titan (add_anime basic_latin attack_on_titan init)
     = add_anime basic_latin attack_on_titan init \<and>
   total_anime (add_anime basic_latin renamed_titan
                  (add_anime basic_latin attack_on_titan init)) = 1"
proof -
  have same: "anime_id renamed_titan = anime_id attack_on_titan"
    by (simp add: renamed_titan_def attack_on_titan_def)
  have differ: "title renamed_titan \<noteq> title attack_on_titan"
    by (simp add: renamed_titan_def attack_on_titan_def ustr_of_def)
  have one: "total_anime (add_anime basic_latin attack_on_titan init) = 1"
    by code_simp
  from add_anime_again_is_noop [of init attack_on_titan basic_latin renamed_titan] same
  have "add_anime basic_latin renamed_titan (add_anime basic_latin attack_on_titan init)
          = add_anime basic_latin attack_on_titan init"
    by blast
  with same differ one show ?thesis by simp
qed

section \<open>The limit\<close>

text \<open>
  C10 (zero limit). \<open>if limit:\<close> is false for \<open>0\<close> as it is for \<open>None\<close>: with
  \<open>limit = 0\<close>, \<open>search_by_title\<close> and \<open>advanced_search\<close> return what they return
  without a limit, the whole list.
\<close>

theorem zero_limit_is_no_limit:
  "search_by_title U st pre (Some 0) = search_by_title U st pre None \<and>
   advanced_search U st title_prefix genre_prefix studio_prefix (Some 0)
     = advanced_search U st title_prefix genre_prefix studio_prefix None"
proof -
  have zero: "apply_limit (Some 0) results = apply_limit None results"
    for results :: "anime list"
    by (simp add: apply_limit_def)
  show ?thesis
    unfolding search_by_title_def advanced_search_def zero by simp
qed

theorem zero_limit_is_no_limit_witness:
  "search_by_title basic_latin (run basic_latin [Add attack_on_titan, Add attack_on_tokyo])
     (ustr_of ''attack'') (Some 0) = Inr [attack_on_titan, attack_on_tokyo] \<and>
   advanced_search basic_latin (run basic_latin [Add attack_on_titan, Add attack_on_tokyo])
     (Some (ustr_of ''attack'')) None None (Some 0) = Inr [attack_on_titan, attack_on_tokyo]"
proof -
  have t: "search_by_title basic_latin
             (run basic_latin [Add attack_on_titan, Add attack_on_tokyo])
             (ustr_of ''attack'') None = Inr [attack_on_titan, attack_on_tokyo]"
    by code_simp
  have a: "advanced_search basic_latin
             (run basic_latin [Add attack_on_titan, Add attack_on_tokyo])
             (Some (ustr_of ''attack'')) None None None
             = Inr [attack_on_titan, attack_on_tokyo]"
    by code_simp
  from zero_limit_is_no_limit
         [of basic_latin "run basic_latin [Add attack_on_titan, Add attack_on_tokyo]"
             "ustr_of ''attack''" "Some (ustr_of ''attack'')" None None]
       t a
  show ?thesis by simp
qed

section \<open>What the nodes hold\<close>

subsection \<open>The effect of \<open>_add_to_trie\<close> on every node\<close>

lemma ids_at_Nil [simp]: "ids_at [] t = anime_ids t"
  by (simp add: ids_at_def)

lemma ids_at_Cons:
  "ids_at (c # p) t = (case map_of (children t) c of None \<Rightarrow> {} | Some n \<Rightarrow> ids_at p n)"
  by (simp add: ids_at_def split: option.splits)

lemma new_node_sel [simp]:
  "children new_node = []" "anime_ids new_node = {}" "is_end_of_word new_node = False"
  by (simp_all add: new_node_def)

lemma ids_at_new_node [simp]: "ids_at p new_node = {}"
  by (cases p) (simp_all add: ids_at_Cons)

lemma ids_at_entered:
  "ids_at p (TrieNode (children n) (is_end_of_word n) (insert i (anime_ids n))) =
     (if p = [] then insert i (anime_ids n) else ids_at p n)"
  by (cases p) (simp_all add: ids_at_Cons)

lemma ids_at_add_path:
  "ids_at p (add_path k i t) = ids_at p t \<union> (if hits p k then {i} else {})"
proof (induction k arbitrary: p t)
  case Nil
  show ?case by (cases p) (simp_all add: ids_at_Cons hits_def)
next
  case (Cons c cs)
  show ?case
  proof (cases p)
    case Nil
    then show ?thesis by (simp add: hits_def Let_def)
  next
    case (Cons d q)
    show ?thesis
    proof (cases "d = c")
      case False
      with Cons show ?thesis
        by (simp add: ids_at_Cons hits_def Let_def update_conv')
    next
      case True
      with Cons Cons.IH [of q] show ?thesis
        by (cases q) (auto simp: ids_at_Cons hits_def Let_def update_conv' ids_at_entered split: option.splits)
    qed
  qed
qed

lemma search_in_trie_ids_at: "search_in_trie U t pre = ids_at (normalize_text U pre) t"
  by (simp add: search_in_trie_def ids_at_def)

lemma ids_at_fold:
  assumes F: "\<And>x r. F x r = (if P x then add_path (f x) i r else r)"
  shows "ids_at p (fold F xs t) =
           ids_at p t \<union> (if \<exists>x \<in> set xs. P x \<and> hits p (f x) then {i} else {})"
proof (induction xs arbitrary: t)
  case Nil
  show ?case by simp
next
  case (Cons x xs)
  have step: "ids_at p (F x t) = ids_at p t \<union> (if P x \<and> hits p (f x) then {i} else {})"
    by (simp add: F ids_at_add_path)
  have "ids_at p (fold F (x # xs) t) = ids_at p (fold F xs (F x t))"
    by simp
  also have "\<dots> = ids_at p (F x t) \<union>
               (if \<exists>y \<in> set xs. P y \<and> hits p (f y) then {i} else {})"
    by (rule Cons.IH)
  finally show ?case
    unfolding step by auto
qed

lemma ids_at_root_add:
  assumes "map_of (anime_by_id st) (anime_id a) = None"
  shows "ids_at p (root (add_anime U a st)) =
           ids_at p (root st) \<union>
           (if \<exists>t \<in> set (set_iter U [title a, display_title a,
                  or_else (title_english a) [], or_else (title_japanese a) []]).
                 strip U t \<noteq> [] \<and> hits p (normalize_text U t)
            then {anime_id a} else {})"
  using assms
  by (simp add: add_anime_def Let_def
        ids_at_fold [where P = "\<lambda>t. strip U t \<noteq> []" and f = "normalize_text U"]
        add_to_trie_def)

lemma ids_at_genre_add:
  assumes "map_of (anime_by_id st) (anime_id a) = None"
  shows "ids_at p (genre_trie (add_anime U a st)) =
           ids_at p (genre_trie st) \<union>
           (if \<exists>g \<in> set (genres a). hits p (normalize_text U (genre_name g))
            then {anime_id a} else {})"
  using assms
  by (simp add: add_anime_def Let_def
        ids_at_fold [where P = "\<lambda>g. True" and f = "\<lambda>g. normalize_text U (genre_name g)"]
        add_to_trie_def)

lemma ids_at_studio_add:
  assumes "map_of (anime_by_id st) (anime_id a) = None"
  shows "ids_at p (studio_trie (add_anime U a st)) =
           ids_at p (studio_trie st) \<union>
           (if \<exists>s \<in> set (studios a). hits p (normalize_text U (studio_name s))
            then {anime_id a} else {})"
  using assms
  by (simp add: add_anime_def Let_def
        ids_at_fold [where P = "\<lambda>g. True" and f = "\<lambda>s. normalize_text U (studio_name s)"]
        add_to_trie_def)

lemma indexed_ids_update:
  assumes "map_of d i = None"
  shows "indexed_ids keys (AList.update i a d) p =
           indexed_ids keys d p \<union> (if \<exists>k \<in> keys a. prefix p k then {i} else {})"
  using assms by (auto simp: indexed_ids_def update_conv')

subsection \<open>Properties of the tries that every call keeps\<close>

lemma fold_preserves:
  assumes "\<And>x r. P r \<Longrightarrow> P (F x r)" and "P t"
  shows "P (fold F xs t)"
  using assms(2) by (induction xs arbitrary: t) (simp_all add: assms(1))

lemma add_anime_tries:
  assumes step: "\<And>k i t. P t \<Longrightarrow> P (add_path k i t)"
    and "P (root st) \<and> P (genre_trie st) \<and> P (studio_trie st)"
  shows "P (root (add_anime U a st)) \<and> P (genre_trie (add_anime U a st)) \<and>
         P (studio_trie (add_anime U a st))"
proof (cases "map_of (anime_by_id st) (anime_id a) = None")
  case False
  with assms(2) show ?thesis by (simp add: add_anime_present)
next
  case True
  have "P (fold (\<lambda>t r. if strip U t \<noteq> [] then add_to_trie U r t (anime_id a) else r)
            ts (root st))" for ts :: "ustr list"
    by (rule fold_preserves) (simp_all add: add_to_trie_def step assms(2))
  moreover have "P (fold (\<lambda>g r. add_to_trie U r (genre_name g) (anime_id a)) gs
                     (genre_trie st))" for gs :: "genre list"
    by (rule fold_preserves) (simp_all add: add_to_trie_def step assms(2))
  moreover have "P (fold (\<lambda>s r. add_to_trie U r (studio_name s) (anime_id a)) ss
                     (studio_trie st))" for ss :: "anime_studio list"
    by (rule fold_preserves) (simp_all add: add_to_trie_def step assms(2))
  ultimately show ?thesis
    using True by (simp add: add_anime_def Let_def)
qed

lemma apply_op_tries:
  assumes new: "P new_node" and step: "\<And>k i t. P t \<Longrightarrow> P (add_path k i t)"
    and "P (root st) \<and> P (genre_trie st) \<and> P (studio_trie st)"
  shows "P (root (apply_op U x st)) \<and> P (genre_trie (apply_op U x st)) \<and>
         P (studio_trie (apply_op U x st))"
proof (cases x)
  case (Add a)
  with add_anime_tries [of P st U a] step assms(3) show ?thesis by simp
next
  case (Remove i)
  with assms(3) show ?thesis by (simp add: remove_anime_def)
next
  case Clear
  with new show ?thesis by (simp add: clear_def)
qed

lemma fold_ops_tries:
  assumes new: "P new_node" and step: "\<And>k i t. P t \<Longrightarrow> P (add_path k i t)"
    and "P (root st) \<and> P (genre_trie st) \<and> P (studio_trie st)"
  shows "P (root (fold (apply_op U) ops st)) \<and> P (genre_trie (fold (apply_op U) ops st)) \<and>
         P (studio_trie (fold (apply_op U) ops st))"
  using assms(3)
proof (induction ops arbitrary: st)
  case Nil
  then show ?case by simp
next
  case (Cons x ops)
  have "P (root (apply_op U x st)) \<and> P (genre_trie (apply_op U x st)) \<and>
        P (studio_trie (apply_op U x st))"
    using new step Cons.prems by (rule apply_op_tries)
  then show ?case using Cons.IH by simp
qed

lemma run_tries:
  assumes new: "P new_node" and step: "\<And>k i t. P t \<Longrightarrow> P (add_path k i t)"
  shows "P (root (run U ops)) \<and> P (genre_trie (run U ops)) \<and> P (studio_trie (run U ops))"
  unfolding run_def
  by (rule fold_ops_tries [OF new step]) (simp_all add: init_def new)

lemma trie_mono_new_node: "trie_mono new_node"
  by (simp add: trie_mono_def)

lemma trie_mono_add_path: "trie_mono t \<Longrightarrow> trie_mono (add_path k i t)"
  unfolding trie_mono_def ids_at_add_path hits_def
  by (auto dest: prefix_order.trans)

lemma trie_finite_new_node: "trie_finite new_node"
  by (simp add: trie_finite_def)

lemma trie_finite_add_path: "trie_finite t \<Longrightarrow> trie_finite (add_path k i t)"
  unfolding trie_finite_def ids_at_add_path by simp

lemma run_trie_mono:
  "trie_mono (root (run U ops)) \<and> trie_mono (genre_trie (run U ops)) \<and>
   trie_mono (studio_trie (run U ops))"
  by (rule run_tries [of trie_mono, OF trie_mono_new_node trie_mono_add_path])

lemma run_trie_finite:
  "trie_finite (root (run U ops)) \<and> trie_finite (genre_trie (run U ops)) \<and>
   trie_finite (studio_trie (run U ops))"
  by (rule run_tries [of trie_finite, OF trie_finite_new_node trie_finite_add_path])

section \<open>Prefix queries\<close>

text \<open>
  C8 (prefix monotonicity), as the source has it. The loop of \<open>_add_to_trie\<close> adds
  the identifier to the nodes below the root only, so the root's set does not contain
  the sets below it: after adding a record titled \<open>"a"\<close>, the query for \<open>""\<close> (a
  strict prefix of \<open>"a"\<close>) answers the empty set and the query for \<open>"a"\<close> answers
  \<open>{1}\<close>.
\<close>

theorem empty_prefix_not_superset:
  "strict_prefix [] (ustr_of ''a'') \<and>
   search_in_trie basic_latin (root (run basic_latin [Add short_a])) [] = {} \<and>
   search_in_trie basic_latin (root (run basic_latin [Add short_a])) (ustr_of ''a'') = {1} \<and>
   \<not> (search_in_trie basic_latin (root (run basic_latin [Add short_a])) (ustr_of ''a'')
        \<subseteq> search_in_trie basic_latin (root (run basic_latin [Add short_a])) [])"
  by code_simp

text \<open>
  C8, amended: in every index that calls of \<open>add_anime\<close>, \<open>remove_anime\<close> and \<open>clear\<close>
  build, and for each of its three tries: when the key of \<open>p1\<close> is not empty and is a
  prefix of the key of \<open>p2\<close> (the keys being the normalized strings the query walks),
  the answer for \<open>p1\<close> contains the answer for \<open>p2\<close>.
\<close>

theorem prefix_monotone:
  assumes "t \<in> {root (run U ops), genre_trie (run U ops), studio_trie (run U ops)}"
    and "normalize_text U p1 \<noteq> []"
    and "prefix (normalize_text U p1) (normalize_text U p2)"
  shows "search_in_trie U t p2 \<subseteq> search_in_trie U t p1"
proof -
  from assms(1) run_trie_mono [of U ops] have "trie_mono t" by auto
  with assms(2,3) show ?thesis
    unfolding search_in_trie_ids_at trie_mono_def by blast
qed


theorem prefix_monotone_witness:
  "normalize_text basic_latin (ustr_of ''Attack on'') \<noteq> [] \<and>
   prefix (normalize_text basic_latin (ustr_of ''Attack on''))
     (normalize_text basic_latin (ustr_of ''Attack on Ti'')) \<and>
   search_in_trie basic_latin
     (root (run basic_latin [Add attack_on_titan, Add attack_on_tokyo]))
     (ustr_of ''Attack on Ti'')
   \<subseteq> search_in_trie basic_latin
       (root (run basic_latin [Add attack_on_titan, Add attack_on_tokyo]))
       (ustr_of ''Attack on'')"
proof -
  have nonempty: "normalize_text basic_latin (ustr_of ''Attack on'') \<noteq> []"
    by code_simp
  have pre: "prefix (normalize_text basic_latin (ustr_of ''Attack on''))
               (normalize_text basic_latin (ustr_of ''Attack on Ti''))"
    by code_simp
  have "root (run basic_latin [Add attack_on_titan, Add attack_on_tokyo])
          \<in> {root (run basic_latin [Add attack_on_titan, Add attack_on_tokyo]),
              genre_trie (run basic_latin [Add attack_on_titan, Add attack_on_tokyo]),
              studio_trie (run basic_latin [Add attack_on_titan, Add attack_on_tokyo])}"
    by simp
  from prefix_monotone [OF this nonempty pre] nonempty pre show ?thesis
    by simp
qed

section \<open>The identifier set of every node\<close>

lemma indexed_ids_empty [simp]: "indexed_ids keys [] p = {}"
  by (simp add: indexed_ids_def)

lemma nodes_exact_init: "nodes_exact U init"
  by (simp add: nodes_exact_def init_def)

lemma nodes_exact_clear: "nodes_exact U (clear st)"
  by (simp add: nodes_exact_def clear_def)

lemma nodes_exact_add:
  assumes iter: "\<forall>xs. set (set_iter U xs) = set xs" and inv: "nodes_exact U st"
  shows "nodes_exact U (add_anime U a st)"
proof (cases "map_of (anime_by_id st) (anime_id a) = None")
  case False
  with inv show ?thesis by (simp add: add_anime_present)
next
  case True
  show ?thesis
    unfolding nodes_exact_def
  proof (intro allI impI conjI)
    fix p :: ustr
    assume p: "p \<noteq> []"
    have titles: "(\<exists>t \<in> set (set_iter U [title a, display_title a,
                      or_else (title_english a) [], or_else (title_japanese a) []]).
                    strip U t \<noteq> [] \<and> hits p (normalize_text U t))
                  \<longleftrightarrow> (\<exists>k \<in> title_keys U a. prefix p k)"
      using p iter by (auto simp: title_keys_def hits_def)
    show "ids_at p (root (add_anime U a st))
            = indexed_ids (title_keys U) (anime_by_id (add_anime U a st)) p"
      using inv p True titles
      by (simp add: ids_at_root_add anime_by_id_add indexed_ids_update nodes_exact_def)
    have genres: "(\<exists>g \<in> set (genres a). hits p (normalize_text U (genre_name g)))
                  \<longleftrightarrow> (\<exists>k \<in> genre_keys U a. prefix p k)"
      using p by (auto simp: genre_keys_def hits_def)
    show "ids_at p (genre_trie (add_anime U a st))
            = indexed_ids (genre_keys U) (anime_by_id (add_anime U a st)) p"
      using inv p True genres
      by (simp add: ids_at_genre_add anime_by_id_add indexed_ids_update nodes_exact_def)
    have studios: "(\<exists>s \<in> set (studios a). hits p (normalize_text U (studio_name s)))
                  \<longleftrightarrow> (\<exists>k \<in> studio_keys U a. prefix p k)"
      using p by (auto simp: studio_keys_def hits_def)
    show "ids_at p (studio_trie (add_anime U a st))
            = indexed_ids (studio_keys U) (anime_by_id (add_anime U a st)) p"
      using inv p True studios
      by (simp add: ids_at_studio_add anime_by_id_add indexed_ids_update nodes_exact_def)
  qed
qed

lemma nodes_exact_fold:
  assumes iter: "\<forall>xs. set (set_iter U xs) = set xs"
  shows "nodes_exact U st \<Longrightarrow> \<forall>x \<in> set ops. \<not> is_remove x \<Longrightarrow>
           nodes_exact U (fold (apply_op U) ops st)"
proof (induction ops arbitrary: st)
  case Nil
  then show ?case by simp
next
  case (Cons x ops)
  have "nodes_exact U (apply_op U x st)"
  proof (cases x)
    case (Add a)
    with Cons.prems(1) iter show ?thesis by (simp add: nodes_exact_add)
  next
    case (Remove i)
    with Cons.prems(2) show ?thesis by simp
  next
    case Clear
    then show ?thesis by (simp add: nodes_exact_clear)
  qed
  with Cons.IH Cons.prems(2) show ?case by simp
qed

text \<open>
  C3 (the path-set invariant), as the source has it, at the root: after adding a record
  titled \<open>"a"\<close> to a fresh index, record 1 has the indexed title key \<open>"a"\<close>, of which
  the root's path \<open>""\<close> is a prefix, and the root of the title trie holds no
  identifier.
\<close>

theorem root_misses_indexed_id:
  "find_node [] (root (run basic_latin [Add short_a]))
     = Some (root (run basic_latin [Add short_a])) \<and>
   anime_ids (root (run basic_latin [Add short_a])) = {} \<and>
   1 \<in> indexed_ids (title_keys basic_latin) (anime_by_id (run basic_latin [Add short_a])) []"
proof -
  have tbl: "map_of (anime_by_id (run basic_latin [Add short_a])) 1 = Some short_a"
    by code_simp
  have norm: "normalize_text basic_latin (title short_a) = ustr_of ''a''"
    by code_simp
  have kept: "strip basic_latin (title short_a) \<noteq> []"
    by code_simp
  have "ustr_of ''a'' \<in> title_keys basic_latin short_a"
    unfolding title_keys_def using norm kept
    by (intro image_eqI [where x = "title short_a"]) simp_all
  with tbl have "1 \<in> indexed_ids (title_keys basic_latin)
                      (anime_by_id (run basic_latin [Add short_a])) []"
    unfolding indexed_ids_def by auto
  moreover have "anime_ids (root (run basic_latin [Add short_a])) = {}"
    by code_simp
  ultimately show ?thesis by simp
qed

text \<open>
  C3, amended: in every index built by calls of \<open>add_anime\<close> and \<open>clear\<close>, for each of
  the three tries and every non-empty path \<open>p\<close>: the node at \<open>p\<close>, when there is one,
  stores exactly the identifiers of the records in the table that have an indexed key
  of that field with \<open>p\<close> as a prefix; and when the trie has no node at \<open>p\<close>, no
  record has such a key. (The runtime iterates a set over exactly its elements.)
\<close>

theorem node_ids_exact:
  assumes "\<forall>xs. set (set_iter U xs) = set xs"
    and "\<forall>x \<in> set ops. \<not> is_remove x"
    and "p \<noteq> []"
  shows "(case find_node p (root (run U ops)) of None \<Rightarrow> {} | Some node \<Rightarrow> anime_ids node)
           = indexed_ids (title_keys U) (anime_by_id (run U ops)) p \<and>
         (case find_node p (genre_trie (run U ops)) of None \<Rightarrow> {}
          | Some node \<Rightarrow> anime_ids node)
           = indexed_ids (genre_keys U) (anime_by_id (run U ops)) p \<and>
         (case find_node p (studio_trie (run U ops)) of None \<Rightarrow> {}
          | Some node \<Rightarrow> anime_ids node)
           = indexed_ids (studio_keys U) (anime_by_id (run U ops)) p"
proof -
  have "nodes_exact U (run U ops)"
    unfolding run_def using assms(1) nodes_exact_init assms(2) by (rule nodes_exact_fold)
  with assms(3) show ?thesis
    by (simp add: nodes_exact_def ids_at_def)
qed

theorem node_ids_exact_witness:
  "indexed_ids (title_keys basic_latin)
     (anime_by_id (run basic_latin [Add attack_on_titan, Clear, Add attack_on_titan,
                                     Add attack_on_tokyo]))
     (ustr_of ''attack'') = {1, 2} \<and>
   indexed_ids (genre_keys basic_latin)
     (anime_by_id (run basic_latin [Add attack_on_titan, Clear, Add attack_on_titan,
                                     Add attack_on_tokyo]))
     (ustr_of ''attack'') = {} \<and>
   indexed_ids (studio_keys basic_latin)
     (anime_by_id (run basic_latin [Add attack_on_titan, Clear, Add attack_on_titan,
                                     Add attack_on_tokyo]))
     (ustr_of ''attack'') = {}"
proof -
  let ?ops = "[Add attack_on_titan, Clear, Add attack_on_titan, Add attack_on_tokyo]"
  have iter: "\<forall>xs. set (set_iter basic_latin xs) = set xs"
    by (simp add: basic_latin_def)
  have ops: "\<forall>x \<in> set ?ops. \<not> is_remove x"
    by simp
  have path: "ustr_of ''attack'' \<noteq> []"
    by (simp add: ustr_of_def)
  have t: "(case find_node (ustr_of ''attack'') (root (run basic_latin ?ops)) of
              None \<Rightarrow> {} | Some node \<Rightarrow> anime_ids node) = {1, 2}"
    by code_simp
  have g: "(case find_node (ustr_of ''attack'') (genre_trie (run basic_latin ?ops)) of
              None \<Rightarrow> {} | Some node \<Rightarrow> anime_ids node) = {}"
    by code_simp
  have s: "(case find_node (ustr_of ''attack'') (studio_trie (run basic_latin ?ops)) of
              None \<Rightarrow> {} | Some node \<Rightarrow> anime_ids node) = {}"
    by code_simp
  from node_ids_exact [OF iter ops path] t g s show ?thesis
    by simp
qed

section \<open>Searching several fields\<close>

lemma keys_ok_apply_op:
  assumes "keys_ok (anime_by_id st)"
  shows "keys_ok (anime_by_id (apply_op U x st))"
proof (cases x)
  case (Add a)
  show ?thesis
  proof (cases "map_of (anime_by_id st) (anime_id a) = None")
    case True
    with assms Add show ?thesis
      by (simp add: anime_by_id_add keys_ok_def update_conv')
  next
    case False
    with assms Add show ?thesis by (simp add: add_anime_present)
  qed
next
  case (Remove i)
  with assms show ?thesis
    by (auto simp: remove_anime_def keys_ok_def delete_conv')
next
  case Clear
  then show ?thesis by (simp add: clear_def keys_ok_def)
qed

lemma keys_ok_run: "keys_ok (anime_by_id (run U ops))"
proof -
  have step: "keys_ok (anime_by_id st) \<Longrightarrow> keys_ok (anime_by_id (fold (apply_op U) ops st))"
    for st
  proof (induction ops arbitrary: st)
    case Nil
    then show ?case by simp
  next
    case (Cons x ops)
    from Cons.prems have "keys_ok (anime_by_id (apply_op U x st))"
      by (rule keys_ok_apply_op)
    then have "keys_ok (anime_by_id (fold (apply_op U) ops (apply_op U x st)))"
      by (rule Cons.IH)
    then show ?case by simp
  qed
  have base: "keys_ok (anime_by_id init)"
    by (simp add: init_def keys_ok_def)
  show ?thesis
    unfolding run_def using base by (rule step)
qed

lemma lookup_each_Inr_dom:
  "lookup_each d js = Inr rs \<Longrightarrow> i \<in> set js \<Longrightarrow> map_of d i \<noteq> None"
  by (induction js arbitrary: rs) (auto split: option.splits sum.splits)

lemma lookup_each_Inr_ids:
  "keys_ok d \<Longrightarrow> lookup_each d js = Inr rs \<Longrightarrow> map anime_id rs = js"
  by (induction js arbitrary: rs) (auto simp: keys_ok_def split: option.splits sum.splits)

lemma lookup_each_total:
  "\<forall>i \<in> set js. map_of d i \<noteq> None \<Longrightarrow> \<exists>rs. lookup_each d js = Inr rs"
  by (induction js) auto

lemma apply_limit_None [simp]: "apply_limit None rs = rs"
  by (simp add: apply_limit_def)

lemma apply_limit_pos: "0 < n \<Longrightarrow> apply_limit (Some n) rs = take (nat n) rs"
  by (simp add: apply_limit_def)

lemma advanced_search_all_fields:
  assumes "t \<noteq> []" "g \<noteq> []" "s \<noteq> []"
  shows "advanced_search U st (Some t) (Some g) (Some s) limit =
           (case lookup_each (anime_by_id st)
                   (sorted_list_of_set (search_in_trie U (root st) t \<inter>
                      search_in_trie U (genre_trie st) g \<inter>
                      search_in_trie U (studio_trie st) s)) of
              Inl e \<Rightarrow> Inl e
            | Inr results \<Rightarrow> Inr (apply_limit limit results))"
  using assms by (simp add: advanced_search_def truthy_def narrow_def or_else_def)

lemma advanced_search_no_field:
  "advanced_search U st None None None limit =
           (case lookup_each (anime_by_id st)
                   (sorted_list_of_set (fst ` set (anime_by_id st))) of
              Inl e \<Rightarrow> Inl e
            | Inr results \<Rightarrow> Inr (apply_limit limit results))"
  by (simp add: advanced_search_def truthy_def)

lemma search_result_ids:
  assumes ok: "keys_ok d" and fin: "finite A"
    and res: "lookup_each d (sorted_list_of_set A) = Inr rs"
  shows "set (map anime_id rs) = A" and "\<forall>i \<in> A. map_of d i \<noteq> None"
proof -
  from ok res have "map anime_id rs = sorted_list_of_set A"
    by (rule lookup_each_Inr_ids)
  with fin show "set (map anime_id rs) = A" by simp
  from res fin show "\<forall>i \<in> A. map_of d i \<noteq> None"
    by (auto dest: lookup_each_Inr_dom)
qed

text \<open>
  C4 (intersection correctness), as the source has it. A prefix counts as supplied when
  it is truthy, so the empty string is skipped like \<open>None\<close>: with the title prefix
  \<open>""\<close> and the genre and studio prefixes of record 1, \<open>advanced_search\<close> returns
  record 1, while \<open>search_by_title("")\<close> returns nothing and the intersection is
  empty. And a limit of \<open>0\<close> is given but does not truncate: the result keeps its one
  record.
\<close>

theorem advanced_search_skips_empty_prefix:
  "search_by_title basic_latin (run basic_latin [Add attack_on_titan, Add attack_on_tokyo])
     [] None = Inr [] \<and>
   search_by_genre basic_latin (run basic_latin [Add attack_on_titan, Add attack_on_tokyo])
     (ustr_of ''action'') = Inr [attack_on_titan] \<and>
   search_by_studio basic_latin (run basic_latin [Add attack_on_titan, Add attack_on_tokyo])
     (ustr_of ''wit'') = Inr [attack_on_titan] \<and>
   advanced_search basic_latin (run basic_latin [Add attack_on_titan, Add attack_on_tokyo])
     (Some []) (Some (ustr_of ''action'')) (Some (ustr_of ''wit'')) None
     = Inr [attack_on_titan] \<and>
   advanced_search basic_latin (run basic_latin [Add attack_on_titan, Add attack_on_tokyo])
     (Some (ustr_of ''attack'')) (Some (ustr_of ''action'')) (Some (ustr_of ''wit''))
     (Some 0) = Inr [attack_on_titan]"
  by code_simp

text \<open>
  C4, amended: in every index built by calls of \<open>add_anime\<close>, \<open>remove_anime\<close> and
  \<open>clear\<close>: when the three prefixes are non-empty strings and the three single-field
  searches return, \<open>advanced_search\<close> returns too, and the identifiers of its records
  are the intersection of the identifiers of the three results, in ascending order; when
  no prefix is passed it returns the records of all identifiers in the table, in
  ascending order; and a limit \<open>n > 0\<close> keeps the first \<open>n\<close> records of either list.
\<close>

theorem advanced_search_intersection:
  assumes st: "st = run U ops"
  shows "(t \<noteq> [] \<and> g \<noteq> [] \<and> s \<noteq> [] \<and>
          search_by_title U st t None = Inr ts \<and> search_by_genre U st g = Inr gs \<and>
          search_by_studio U st s = Inr ss \<longrightarrow>
          (\<exists>rs. advanced_search U st (Some t) (Some g) (Some s) None = Inr rs \<and>
                map anime_id rs = sorted_list_of_set
                  (set (map anime_id ts) \<inter> set (map anime_id gs) \<inter> set (map anime_id ss)) \<and>
                (\<forall>n. 0 < n \<longrightarrow>
                   advanced_search U st (Some t) (Some g) (Some s) (Some n)
                     = Inr (take (nat n) rs)))) \<and>
         (\<exists>rs. advanced_search U st None None None None = Inr rs \<and>
               map anime_id rs = sorted_list_of_set (fst ` set (anime_by_id st)) \<and>
               (\<forall>n. 0 < n \<longrightarrow>
                  advanced_search U st None None None (Some n) = Inr (take (nat n) rs)))"
proof (intro conjI impI)
  assume h: "t \<noteq> [] \<and> g \<noteq> [] \<and> s \<noteq> [] \<and>
          search_by_title U st t None = Inr ts \<and> search_by_genre U st g = Inr gs \<and>
          search_by_studio U st s = Inr ss"
  let ?d = "anime_by_id st"
  let ?T = "search_in_trie U (root st) t"
  let ?G = "search_in_trie U (genre_trie st) g"
  let ?S = "search_in_trie U (studio_trie st) s"
  have ok: "keys_ok ?d" unfolding st by (rule keys_ok_run)
  have fin: "finite ?T" "finite ?G" "finite ?S"
    using run_trie_finite [of U ops]
    unfolding st search_in_trie_ids_at trie_finite_def by blast+
  from h have lt: "lookup_each ?d (sorted_list_of_set ?T) = Inr ts"
    by (auto simp: search_by_title_def split: sum.splits)
  from h have lg: "lookup_each ?d (sorted_list_of_set ?G) = Inr gs"
    by (simp add: search_by_genre_def)
  from h have ls: "lookup_each ?d (sorted_list_of_set ?S) = Inr ss"
    by (simp add: search_by_studio_def)
  have T: "set (map anime_id ts) = ?T" and domT: "\<forall>i \<in> ?T. map_of ?d i \<noteq> None"
    using search_result_ids [OF ok fin(1) lt] by blast+
  have G: "set (map anime_id gs) = ?G"
    using search_result_ids [OF ok fin(2) lg] by blast
  have S: "set (map anime_id ss) = ?S"
    using search_result_ids [OF ok fin(3) ls] by blast
  have "\<forall>i \<in> set (sorted_list_of_set (?T \<inter> ?G \<inter> ?S)). map_of ?d i \<noteq> None"
    using domT fin by simp
  then obtain rs where rs: "lookup_each ?d (sorted_list_of_set (?T \<inter> ?G \<inter> ?S)) = Inr rs"
    using lookup_each_total by blast
  have ids: "map anime_id rs = sorted_list_of_set (?T \<inter> ?G \<inter> ?S)"
    using ok rs by (rule lookup_each_Inr_ids)
  from h have ne: "t \<noteq> []" "g \<noteq> []" "s \<noteq> []" by simp_all
  show "\<exists>rs. advanced_search U st (Some t) (Some g) (Some s) None = Inr rs \<and>
                map anime_id rs = sorted_list_of_set
                  (set (map anime_id ts) \<inter> set (map anime_id gs) \<inter> set (map anime_id ss)) \<and>
                (\<forall>n. 0 < n \<longrightarrow>
                   advanced_search U st (Some t) (Some g) (Some s) (Some n)
                     = Inr (take (nat n) rs))"
    unfolding T G S
    by (rule exI [of _ rs])
       (simp add: advanced_search_all_fields [OF ne] rs ids apply_limit_pos)
next
  let ?d = "anime_by_id st"
  have ok: "keys_ok ?d" unfolding st by (rule keys_ok_run)
  have "\<forall>i \<in> set (sorted_list_of_set (fst ` set ?d)). map_of ?d i \<noteq> None"
    by (simp add: map_of_eq_None_iff)
  then obtain rs where rs: "lookup_each ?d (sorted_list_of_set (fst ` set ?d)) = Inr rs"
    using lookup_each_total by blast
  have ids: "map anime_id rs = sorted_list_of_set (fst ` set ?d)"
    using ok rs by (rule lookup_each_Inr_ids)
  show "\<exists>rs. advanced_search U st None None None None = Inr rs \<and>
               map anime_id rs = sorted_list_of_set (fst ` set (anime_by_id st)) \<and>
               (\<forall>n. 0 < n \<longrightarrow>
                  advanced_search U st None None None (Some n) = Inr (take (nat n) rs))"
    by (rule exI [of _ rs]) (simp add: advanced_search_no_field rs ids apply_limit_pos)
qed

theorem advanced_search_intersection_witness:
  "search_by_title basic_latin (run basic_latin [Add attack_on_titan, Add attack_on_tokyo])
     (ustr_of ''attack'') None = Inr [attack_on_titan, attack_on_tokyo] \<and>
   search_by_genre basic_latin (run basic_latin [Add attack_on_titan, Add attack_on_tokyo])
     (ustr_of ''action'') = Inr [attack_on_titan] \<and>
   search_by_studio basic_latin (run basic_latin [Add attack_on_titan, Add attack_on_tokyo])
     (ustr_of ''wit'') = Inr [attack_on_titan] \<and>
   (\<exists>rs. advanced_search basic_latin
            (run basic_latin [Add attack_on_titan, Add attack_on_tokyo])
            (Some (ustr_of ''attack'')) (Some (ustr_of ''action'')) (Some (ustr_of ''wit''))
            None = Inr rs \<and>
         map anime_id rs = [1]) \<and>
   (\<exists>rs. advanced_search basic_latin
            (run basic_latin [Add attack_on_titan, Add attack_on_tokyo])
            None None None None = Inr rs \<and>
         map anime_id rs = [1, 2])"
proof -
  let ?st = "run basic_latin [Add attack_on_titan, Add attack_on_tokyo]"
  have ne: "ustr_of ''attack'' \<noteq> [] \<and> ustr_of ''action'' \<noteq> [] \<and> ustr_of ''wit'' \<noteq> []"
    by (simp add: ustr_of_def)
  have t: "search_by_title basic_latin ?st (ustr_of ''attack'') None
             = Inr [attack_on_titan, attack_on_tokyo]"
    by code_simp
  have g: "search_by_genre basic_latin ?st (ustr_of ''action'') = Inr [attack_on_titan]"
    by code_simp
  have s: "search_by_studio basic_latin ?st (ustr_of ''wit'') = Inr [attack_on_titan]"
    by code_simp
  have inter: "sorted_list_of_set
                 (set (map anime_id [attack_on_titan, attack_on_tokyo]) \<inter>
                  set (map anime_id [attack_on_titan]) \<inter> set (map anime_id [attack_on_titan]))
               = [1]"
    by code_simp
  have live: "sorted_list_of_set (fst ` set (anime_by_id ?st)) = [1, 2]"
    by code_simp
  note inst = advanced_search_intersection
            [OF refl, of "ustr_of ''attack''" "ustr_of ''action''" "ustr_of ''wit''"
               basic_latin "[Add attack_on_titan, Add attack_on_tokyo]"
               "[attack_on_titan, attack_on_tokyo]" "[attack_on_titan]" "[attack_on_titan]"]
  have hyp: "ustr_of ''attack'' \<noteq> [] \<and> ustr_of ''action'' \<noteq> [] \<and> ustr_of ''wit'' \<noteq> [] \<and>
             search_by_title basic_latin ?st (ustr_of ''attack'') None
               = Inr [attack_on_titan, attack_on_tokyo] \<and>
             search_by_genre basic_latin ?st (ustr_of ''action'') = Inr [attack_on_titan] \<and>
             search_by_studio basic_latin ?st (ustr_of ''wit'') = Inr [attack_on_titan]"
    using ne t g s by blast
  from inst [THEN conjunct1, THEN mp, OF hyp]
  obtain rs where "advanced_search basic_latin ?st (Some (ustr_of ''attack''))
                     (Some (ustr_of ''action'')) (Some (ustr_of ''wit'')) None = Inr rs"
    and "map anime_id rs = sorted_list_of_set
                 (set (map anime_id [attack_on_titan, attack_on_tokyo]) \<inter>
                  set (map anime_id [attack_on_titan]) \<inter> set (map anime_id [attack_on_titan]))"
    by (elim exE conjE)
  then have all: "\<exists>rs. advanced_search basic_latin ?st (Some (ustr_of ''attack''))
                    (Some (ustr_of ''action'')) (Some (ustr_of ''wit'')) None = Inr rs \<and>
                  map anime_id rs = [1]"
    unfolding inter by (intro exI [of _ rs] conjI)
  from inst [THEN conjunct2]
  obtain rs' where "advanced_search basic_latin ?st None None None None = Inr rs'"
    and "map anime_id rs' = sorted_list_of_set (fst ` set (anime_by_id ?st))"
    by (elim exE conjE)
  then have none: "\<exists>rs. advanced_search basic_latin ?st None None None None = Inr rs \<and>
                   map anime_id rs = [1, 2]"
    unfolding live by (intro exI [of _ rs'] conjI)
  from t g s all none show ?thesis
    by (intro conjI)
qed

end
